theory Spec2Isabelle
  imports Complex_Main
begin

section \<open>Python values and sequences\<close>

text \<open>
  The exceptions that \<^verbatim>\<open>mavteleop.py\<close> can raise by itself. Floats are modelled as
  \<^typ>\<open>real\<close>, Python integers as \<^typ>\<open>int\<close>.
\<close>

datatype error = IndexError | KeyError | ZeroDivisionError | NameError string

text \<open>
  Subscripting a Python sequence of length \<open>n\<close> with \<open>i\<close>: indices \<open>0 .. n-1\<close> are
  taken as they are, indices \<open>-n .. -1\<close> count from the end, everything else raises
  \<^verbatim>\<open>IndexError\<close>.
\<close>

definition norm_index :: "nat \<Rightarrow> int \<Rightarrow> nat option" where
  "norm_index n i =
     (if 0 \<le> i \<and> i < int n then Some (nat i)
      else if - int n \<le> i \<and> i < 0 then Some (nat (i + int n))
      else None)"

definition getitem :: "'a list \<Rightarrow> int \<Rightarrow> error + 'a" where
  "getitem xs i =
     (case norm_index (length xs) i of
        None \<Rightarrow> Inl IndexError
      | Some k \<Rightarrow> Inr (xs ! k))"

definition setitem :: "'a list \<Rightarrow> int \<Rightarrow> 'a \<Rightarrow> error + 'a list" where
  "setitem xs i v =
     (case norm_index (length xs) i of
        None \<Rightarrow> Inl IndexError
      | Some k \<Rightarrow> Inr (xs[k := v]))"

text \<open>
  Sequencing of two statements that mutate a state \<open>'s\<close> and may raise: the second runs
  only if the first returned, and the mutations made before a raise stay.
\<close>

definition then_do ::
  "('s \<Rightarrow> 's \<times> (error + unit)) \<Rightarrow> ('s \<Rightarrow> 's \<times> (error + unit)) \<Rightarrow> 's \<Rightarrow> 's \<times> (error + unit)"
where
  "then_do f g s = (case f s of (s', Inl e) \<Rightarrow> (s', Inl e) | (s', Inr _) \<Rightarrow> g s')"

text \<open>
  Evaluating an expression that reads the state \<open>s\<close> without changing it and may raise,
  then going on with its value.
\<close>

definition eval_then ::
  "error + 'a \<Rightarrow> ('a \<Rightarrow> 's \<Rightarrow> 's \<times> (error + unit)) \<Rightarrow> 's \<Rightarrow> 's \<times> (error + unit)"
where
  "eval_then r k s = (case r of Inl e \<Rightarrow> (s, Inl e) | Inr v \<Rightarrow> k v s)"

section \<open>Linear range mapping\<close>

text \<open>
  \<^verbatim>\<open>def arduino_map(x, inmin, inmax, outmin, outmax):
      return (x - inmin) * (outmax - outmin) / (inmax - inmin) + outmin\<close>
  Every call site passes a float for \<open>x\<close> and \<open>inmin\<close>, so the division is float
  division; it raises \<^verbatim>\<open>ZeroDivisionError\<close> on a zero divisor.
\<close>

definition arduino_map :: "real \<Rightarrow> real \<Rightarrow> real \<Rightarrow> real \<Rightarrow> real \<Rightarrow> error + real" where
  "arduino_map x inmin inmax outmin outmax =
     (if inmax - inmin = 0 then Inl ZeroDivisionError
      else Inr ((x - inmin) * (outmax - outmin) / (inmax - inmin) + outmin))"

section \<open>Channel calibration: class RCChan\<close>

record rcchan =
  name :: string
  chan :: int
  min_us :: int
  max_us :: int
  min_pos :: real

text \<open>\<^verbatim>\<open>RCChan.__init__(self, name, chan, min_pos=-1.0)\<close>: \<open>min\<close> and \<open>max\<close> start at 1000 and 2000.\<close>

definition RCChan :: "string \<Rightarrow> int \<Rightarrow> real \<Rightarrow> rcchan" where
  "RCChan n c mp = \<lparr>name = n, chan = c, min_us = 1000, max_us = 2000, min_pos = mp\<rparr>"

text \<open>
  \<^verbatim>\<open>RCChan.load_param\<close>: the three parameters \<^verbatim>\<open>~rc_map/<name>\<close>, \<^verbatim>\<open>~rc_min/<name>\<close> and
  \<^verbatim>\<open>~rc_max/<name>\<close>, each with the current value as default. The arguments are what
  the parameter server holds under these keys.
\<close>

definition load_param_chan :: "int option \<Rightarrow> int option \<Rightarrow> int option \<Rightarrow> rcchan \<Rightarrow> rcchan" where
  "load_param_chan pmap pmin pmax c =
     c\<lparr>chan := (case pmap of None \<Rightarrow> chan c | Some v \<Rightarrow> v),
       min_us := (case pmin of None \<Rightarrow> min_us c | Some v \<Rightarrow> v),
       max_us := (case pmax of None \<Rightarrow> max_us c | Some v \<Rightarrow> v)\<rparr>"

definition calc_us :: "rcchan \<Rightarrow> real \<Rightarrow> error + real" where
  "calc_us c pos = arduino_map pos (min_pos c) 1 (of_int (min_us c)) (of_int (max_us c))"

section \<open>Input samples and mode overlays: class RCMode\<close>

record joy =
  axes :: "real list"
  buttons :: "int list"

record rcmode =
  mode_name :: string
  joy_flags :: "(int \<times> int) list"
  rc_channel :: int
  rc_value :: int

text \<open>
  \<^verbatim>\<open>def is_toggled(self, joy):
      for btn, flag in self.joy_flags:
          if joy.buttons[btn] != flag:
              return False
      return True\<close>
  The loop over the flags; it returns at the first mismatch and raises at the first
  button index that the sample does not have.
\<close>

fun is_toggled_flags :: "(int \<times> int) list \<Rightarrow> joy \<Rightarrow> error + bool" where
  "is_toggled_flags [] j = Inr True"
| "is_toggled_flags ((btn, flag) # rest) j =
     (case getitem (buttons j) btn of
        Inl e \<Rightarrow> Inl e
      | Inr b \<Rightarrow> if b \<noteq> flag then Inr False else is_toggled_flags rest j)"

definition is_toggled :: "rcmode \<Rightarrow> joy \<Rightarrow> error + bool" where
  "is_toggled m j = is_toggled_flags (joy_flags m) j"

text \<open>
  \<^verbatim>\<open>def apply_mode(self, joy, rc):
      if self.is_toggled(joy):
          rc.channels[self.rc_channel] = self.rc_value\<close>
  The state is \<^verbatim>\<open>rc.channels\<close>.
\<close>

definition apply_mode :: "rcmode \<Rightarrow> joy \<Rightarrow> real list \<Rightarrow> real list \<times> (error + unit)" where
  "apply_mode m j rc =
     (case is_toggled m j of
        Inl e \<Rightarrow> (rc, Inl e)
      | Inr False \<Rightarrow> (rc, Inr ())
      | Inr True \<Rightarrow>
          (case setitem rc (rc_channel m) (of_int (rc_value m)) of
             Inl e \<Rightarrow> (rc, Inl e)
           | Inr rc' \<Rightarrow> (rc', Inr ())))"

text \<open>\<^verbatim>\<open>for m in rc_modes: m.apply_mode(joy, rc)\<close>\<close>

fun apply_modes :: "rcmode list \<Rightarrow> joy \<Rightarrow> real list \<Rightarrow> real list \<times> (error + unit)" where
  "apply_modes [] j rc = (rc, Inr ())"
| "apply_modes (m # ms) j rc = then_do (apply_mode m j) (apply_modes ms j) rc"

section \<open>Module globals and configuration load\<close>

datatype axis = Roll | Pitch | Yaw | Throttle

datatype button = Arm | Disarm | Takeoff | Land | Enable

text \<open>
  The module's dictionaries are literals over a fixed set of keys, and \<^verbatim>\<open>load_map\<close>
  only rebinds keys that are present, so each dictionary is a total function on its keys.
  \<^verbatim>\<open>px, py, pz\<close> are the position integrator.
\<close>

record globals =
  axes_map :: "axis \<Rightarrow> int"
  axes_scale :: "axis \<Rightarrow> real"
  button_map :: "button \<Rightarrow> int"
  rc_channels :: "axis \<Rightarrow> rcchan"
  px :: real
  py :: real
  pz :: real

definition module_init :: globals where
  "module_init =
     \<lparr>axes_map = (\<lambda>n. case n of Roll \<Rightarrow> 3 | Pitch \<Rightarrow> 4 | Yaw \<Rightarrow> 0 | Throttle \<Rightarrow> 1),
      axes_scale = (\<lambda>n. 1),
      button_map = (\<lambda>n. case n of Arm \<Rightarrow> 0 | Disarm \<Rightarrow> 1 | Takeoff \<Rightarrow> 2 | Land \<Rightarrow> 3 | Enable \<Rightarrow> 4),
      rc_channels = (\<lambda>n. case n of
          Roll \<Rightarrow> RCChan ''roll'' 0 (- 1)
        | Pitch \<Rightarrow> RCChan ''pitch'' 1 (- 1)
        | Yaw \<Rightarrow> RCChan ''yaw'' 3 (- 1)
        | Throttle \<Rightarrow> RCChan ''throttle'' 2 0),
      px = 0, py = 0, pz = 0\<rparr>"

text \<open>
  The parameter server, as far as this program reads it: a missing key is \<open>None\<close>.
\<close>

record params =
  p_axes_map :: "axis \<Rightarrow> int option"
  p_axes_scale :: "axis \<Rightarrow> real option"
  p_button_map :: "button \<Rightarrow> int option"
  p_rc_map :: "axis \<Rightarrow> int option"
  p_rc_min :: "axis \<Rightarrow> int option"
  p_rc_max :: "axis \<Rightarrow> int option"
  p_rc_modes :: "rcmode list option"
  p_reverse_throttle :: "bool option"

text \<open>
  \<^verbatim>\<open>def load_map(m, n):
      for k, v in m.items():
          m[k] = rospy.get_param(n + k, v)\<close>
\<close>

definition load_map :: "('k \<Rightarrow> 'v) \<Rightarrow> ('k \<Rightarrow> 'v option) \<Rightarrow> ('k \<Rightarrow> 'v)" where
  "load_map m p = (\<lambda>k. case p k of None \<Rightarrow> m k | Some v \<Rightarrow> v)"

text \<open>The three \<^verbatim>\<open>load_map\<close> calls that open every control function.\<close>

definition load_maps :: "params \<Rightarrow> globals \<Rightarrow> globals" where
  "load_maps p g =
     g\<lparr>axes_map := load_map (axes_map g) (p_axes_map p),
       axes_scale := load_map (axes_scale g) (p_axes_scale p),
       button_map := load_map (button_map g) (p_button_map p)\<rparr>"

text \<open>\<^verbatim>\<open>for k, v in rc_channels.items(): v.load_param()\<close>\<close>

definition load_rc_channels :: "params \<Rightarrow> globals \<Rightarrow> globals" where
  "load_rc_channels p g =
     g\<lparr>rc_channels := (\<lambda>n. load_param_chan (p_rc_map p n) (p_rc_min p n) (p_rc_max p n)
                              (rc_channels g n))\<rparr>"

text \<open>
  \<^verbatim>\<open>RCMode.load_param\<close>: \<^verbatim>\<open>rospy.get_param('~rc_modes/')\<close> has no default and raises
  \<^verbatim>\<open>KeyError\<close> when the parameter is not set.
\<close>

definition load_param_modes :: "params \<Rightarrow> error + rcmode list" where
  "load_param_modes p = (case p_rc_modes p of None \<Rightarrow> Inl KeyError | Some ms \<Rightarrow> Inr ms)"

section \<open>Axis normalisation\<close>

text \<open>
  \<^verbatim>\<open>def get_axis(j, n): return j.axes[axes_map[n]] * axes_scale[n]
  def get_buttons(j, n): return j.buttons[button_map[n]]\<close>
\<close>

definition get_axis :: "globals \<Rightarrow> joy \<Rightarrow> axis \<Rightarrow> error + real" where
  "get_axis g j n =
     (case getitem (axes j) (axes_map g n) of
        Inl e \<Rightarrow> Inl e
      | Inr a \<Rightarrow> Inr (a * axes_scale g n))"

definition get_buttons :: "globals \<Rightarrow> joy \<Rightarrow> button \<Rightarrow> error + int" where
  "get_buttons g j n = getitem (buttons j) (button_map g n)"

section \<open>RC override control\<close>

text \<open>
  What \<^verbatim>\<open>joy_cb\<close> of \<^verbatim>\<open>rc_override_control\<close> closes over and mutates: the channel list
  of the one \<^verbatim>\<open>OverrideRCIn\<close> message \<open>rc\<close>, and the frames handed to the publisher.
\<close>

record rc_world =
  rc :: "real list"
  override_pub :: "real list list"

text \<open>
  \<^verbatim>\<open>def set_chan(n, v):
      ch = rc_channels[n]
      rc.channels[ch.chan] = ch.calc_us(v)\<close>
  (the debug log that follows evaluates \<^verbatim>\<open>ch.calc_us(v)\<close> a second time, with the same
  outcome).
\<close>

definition set_chan :: "globals \<Rightarrow> axis \<Rightarrow> real \<Rightarrow> real list \<Rightarrow> real list \<times> (error + unit)" where
  "set_chan g n v chs =
     (let ch = rc_channels g n in
      case calc_us ch v of
        Inl e \<Rightarrow> (chs, Inl e)
      | Inr us \<Rightarrow>
          (case setitem chs (chan ch) us of
             Inl e \<Rightarrow> (chs, Inl e)
           | Inr chs' \<Rightarrow> (chs', Inr ())))"

definition rc_joy_cb :: "globals \<Rightarrow> rcmode list \<Rightarrow> joy \<Rightarrow> rc_world \<Rightarrow> rc_world \<times> (error + unit)" where
  "rc_joy_cb g rc_modes j =
     eval_then (get_axis g j Roll) (\<lambda>roll.
     eval_then (get_axis g j Pitch) (\<lambda>pitch.
     eval_then (get_axis g j Yaw) (\<lambda>yaw.
     eval_then (get_axis g j Throttle) (\<lambda>t.
     eval_then (arduino_map t (- 1) 1 0 1) (\<lambda>throttle w.
       (case then_do (set_chan g Roll roll)
              (then_do (set_chan g Pitch pitch)
              (then_do (set_chan g Yaw yaw)
              (then_do (set_chan g Throttle throttle)
                       (apply_modes rc_modes j)))) (rc w) of
          (chs, Inl e) \<Rightarrow> (w\<lparr>rc := chs\<rparr>, Inl e)
        | (chs, Inr u) \<Rightarrow> (w\<lparr>rc := chs, override_pub := override_pub w @ [chs]\<rparr>, Inr ())))))))"

text \<open>
  \<^verbatim>\<open>rc_override_control\<close> up to the subscription: the configuration load and the fresh
  message, whose channel list \<open>rc0\<close> is that of a new \<^verbatim>\<open>OverrideRCIn()\<close>.
\<close>

definition rc_override_setup ::
  "params \<Rightarrow> real list \<Rightarrow> globals \<Rightarrow> error + (globals \<times> rcmode list \<times> rc_world)"
where
  "rc_override_setup p rc0 g =
     (let g' = load_rc_channels p (load_maps p g) in
      case load_param_modes p of
        Inl e \<Rightarrow> Inl e
      | Inr rc_modes \<Rightarrow> Inr (g', rc_modes, \<lparr>rc = rc0, override_pub = []\<rparr>))"

section \<open>Setpoint messages\<close>

type_synonym vector3 = "real \<times> real \<times> real"
type_synonym quaternion = "real \<times> real \<times> real \<times> real"

text \<open>
  \<^verbatim>\<open>PoseStamped\<close> and \<^verbatim>\<open>TwistStamped\<close>, with the header reduced to its time stamp. A
  new \<^verbatim>\<open>PoseStamped\<close> has position \<open>(0, 0, 0)\<close>.
\<close>

record pose_stamped =
  pose_stamp :: nat
  position :: vector3
  orientation :: quaternion

record twist_stamped =
  twist_stamp :: nat
  linear :: vector3
  angular :: vector3

text \<open>\<^verbatim>\<open>Vector3(x=..., y=..., z=...)\<close>: a field that is not given is \<open>0.0\<close>.\<close>

definition Vector3 :: "real option \<Rightarrow> real option \<Rightarrow> real option \<Rightarrow> vector3" where
  "Vector3 x y z =
     (case x of None \<Rightarrow> 0 | Some v \<Rightarrow> v,
      case y of None \<Rightarrow> 0 | Some v \<Rightarrow> v,
      case z of None \<Rightarrow> 0 | Some v \<Rightarrow> v)"

section \<open>Attitude setpoint control\<close>

text \<open>
  The arming service \<^verbatim>\<open>command.arming\<close> is a service proxy: a call returns a response
  with a \<open>success\<close> field or raises \<^verbatim>\<open>rospy.ServiceException\<close>.
\<close>

datatype arming_reply = Response bool | ServiceException

text \<open>What the attitude callback does to the outside, in order.\<close>

datatype att_event =
    Arming bool
  | LogInfo string
  | PubAttitude pose_stamped
  | PubThrottle real

text \<open>
  \<^verbatim>\<open>def arm(args, state):
      try:
          command.arming(value=state)
      except rospy.ServiceException as ex:
          fault(ex)

      if not ret.success:
          rospy.loginfo("Request failed.")
      else:
          rospy.loginfo("Request success.")\<close>
  Neither \<^verbatim>\<open>fault\<close> nor \<^verbatim>\<open>ret\<close> is bound anywhere in the module: the handler raises
  \<^verbatim>\<open>NameError\<close> at \<^verbatim>\<open>fault\<close>, and when the call returns, its response is dropped and
  the test of \<^verbatim>\<open>ret.success\<close> raises \<^verbatim>\<open>NameError\<close> at \<^verbatim>\<open>ret\<close>. The two log calls are
  never reached.
\<close>

definition arm :: "(bool \<Rightarrow> arming_reply) \<Rightarrow> bool \<Rightarrow> att_event list \<Rightarrow> att_event list \<times> (error + unit)" where
  "arm arming state tr =
     (case arming state of
        ServiceException \<Rightarrow> (tr @ [Arming state], Inl (NameError ''fault''))
      | Response success \<Rightarrow> (tr @ [Arming state], Inl (NameError ''ret'')))"

text \<open>
  \<^verbatim>\<open>thd_normalize\<close>, chosen once from the \<^verbatim>\<open>reverse_throttle\<close> parameter (default
  \<^verbatim>\<open>False\<close>).
\<close>

definition thd_normalize :: "bool \<Rightarrow> real \<Rightarrow> error + real" where
  "thd_normalize reverse_throttle v =
     (if reverse_throttle then Inr v else arduino_map v (- 1) 1 0 1)"

definition load_reverse_throttle :: "params \<Rightarrow> bool" where
  "load_reverse_throttle p = (case p_reverse_throttle p of None \<Rightarrow> False | Some b \<Rightarrow> b)"

text \<open>
  \<^verbatim>\<open>joy_cb\<close> of \<^verbatim>\<open>attitude_setpoint_control\<close>. \<open>qfe\<close> is
  \<^verbatim>\<open>tf.transformations.quaternion_from_euler\<close>, \<open>now\<close> the value of
  \<^verbatim>\<open>rospy.get_rostime()\<close>, \<open>arming\<close> the arming service.
\<close>

definition att_joy_cb ::
  "globals \<Rightarrow> bool \<Rightarrow> (real \<Rightarrow> real \<Rightarrow> real \<Rightarrow> quaternion) \<Rightarrow> (bool \<Rightarrow> arming_reply) \<Rightarrow> nat \<Rightarrow>
   joy \<Rightarrow> att_event list \<Rightarrow> att_event list \<times> (error + unit)"
where
  "att_joy_cb g reverse_throttle qfe arming now j =
     eval_then (get_axis g j Roll) (\<lambda>roll.
     eval_then (get_axis g j Pitch) (\<lambda>pitch.
     eval_then (get_axis g j Yaw) (\<lambda>yaw.
     eval_then (get_axis g j Throttle) (\<lambda>t.
     eval_then (thd_normalize reverse_throttle t) (\<lambda>throttle.
       then_do
         (eval_then (get_buttons g j Arm) (\<lambda>a.
            if a = 1 then arm arming True
            else eval_then (get_buttons g j Disarm) (\<lambda>d.
                   if d = 1 then arm arming False
                   else (\<lambda>tr. (tr, Inr ())))))
         (\<lambda>tr. (tr @ [PubAttitude \<lparr>pose_stamp = now, position = (0, 0, 0),
                                   orientation = qfe roll pitch yaw\<rparr>,
                       PubThrottle throttle], Inr ())))))))"

section \<open>Velocity setpoint control\<close>

definition vel_joy_cb ::
  "globals \<Rightarrow> nat \<Rightarrow> joy \<Rightarrow> twist_stamped list \<Rightarrow> twist_stamped list \<times> (error + unit)"
where
  "vel_joy_cb g now j =
     eval_then (get_axis g j Roll) (\<lambda>roll.
     eval_then (get_axis g j Pitch) (\<lambda>pitch.
     eval_then (get_axis g j Yaw) (\<lambda>yaw.
     eval_then (get_axis g j Throttle) (\<lambda>throttle vel_pub.
       (vel_pub @ [\<lparr>twist_stamp = now,
                    linear = Vector3 (Some roll) (Some pitch) (Some throttle),
                    angular = Vector3 None None (Some yaw)\<rparr>], Inr ())))))"

section \<open>Position setpoint control\<close>

text \<open>
  \<^verbatim>\<open>joy_cb\<close> of \<^verbatim>\<open>position_setpoint_control\<close>: the state is the module globals (for
  \<^verbatim>\<open>px, py, pz\<close>) and the poses handed to the publisher.
\<close>

definition pos_joy_cb ::
  "(real \<Rightarrow> real \<Rightarrow> real \<Rightarrow> quaternion) \<Rightarrow> nat \<Rightarrow> joy \<Rightarrow>
   globals \<times> pose_stamped list \<Rightarrow> (globals \<times> pose_stamped list) \<times> (error + unit)"
where
  "pos_joy_cb qfe now j s =
     (eval_then (get_axis (fst s) j Roll) (\<lambda>roll.
      eval_then (get_axis (fst s) j Pitch) (\<lambda>pitch.
      eval_then (get_axis (fst s) j Yaw) (\<lambda>yaw.
      eval_then (get_axis (fst s) j Throttle) (\<lambda>throttle (g, pos_pub).
        (let g' = g\<lparr>px := px g - pitch, py := py g + roll, pz := pz g + throttle\<rparr> in
         ((g', pos_pub @ [\<lparr>pose_stamp = now, position = (px g', py g', pz g'),
                            orientation = qfe 0 0 yaw\<rparr>]), Inr ()))))))) s"

text \<open>The callback run on a sequence of samples, whatever each run raises.\<close>

fun pos_run ::
  "(real \<Rightarrow> real \<Rightarrow> real \<Rightarrow> quaternion) \<Rightarrow> (nat \<times> joy) list \<Rightarrow>
   globals \<times> pose_stamped list \<Rightarrow> globals \<times> pose_stamped list"
where
  "pos_run qfe [] s = s"
| "pos_run qfe ((now, j) # js) s = pos_run qfe js (fst (pos_joy_cb qfe now j s))"

section \<open>Concrete configurations and samples\<close>

text \<open>
  Inputs on which the properties below are evaluated: gamepad samples with five axes and
  five buttons (and one with fewer), a frame of eight channels, overlays as they would be
  given under \<^verbatim>\<open>~rc_modes/\<close>, a parameter server that holds only an empty overlay
  list, and a stand-in for the quaternion conversion.
\<close>

definition sample_pitch1 :: joy where
  "sample_pitch1 = \<lparr>axes = [0, 0, 0, 0, 1], buttons = [0, 0, 0, 0, 0]\<rparr>"

definition sample_rpyt :: joy where
  "sample_rpyt = \<lparr>axes = [1/4, - 1, 0, 1/2, - 1/2], buttons = [0, 0, 0, 0, 0]\<rparr>"

definition sample_button0 :: joy where
  "sample_button0 = \<lparr>axes = [0, 1, 0, 0, 0], buttons = [1, 0, 0, 0, 0]\<rparr>"

definition sample_released :: joy where
  "sample_released = \<lparr>axes = [0, 1, 0, 0, 0], buttons = [0, 0, 0, 0, 0]\<rparr>"

definition sample_both :: joy where
  "sample_both = \<lparr>axes = [0, 1, 0, 0, 0], buttons = [1, 1, 0, 0, 0]\<rparr>"

definition sample_disarm :: joy where
  "sample_disarm = \<lparr>axes = [0, 1, 0, 0, 0], buttons = [0, 1, 0, 0, 0]\<rparr>"

definition sample_two_axes :: joy where
  "sample_two_axes = \<lparr>axes = [0, 0], buttons = [0]\<rparr>"

definition frame8 :: "real list" where
  "frame8 = [0, 0, 0, 0, 0, 0, 0, 0]"

definition overlay_ch2 :: rcmode where
  "overlay_ch2 = \<lparr>mode_name = ''hold'', joy_flags = [(0, 1)], rc_channel = 2, rc_value = 1500\<rparr>"

definition overlay_ch5 :: rcmode where
  "overlay_ch5 = \<lparr>mode_name = ''aux'', joy_flags = [(0, 1)], rc_channel = 5, rc_value = 1100\<rparr>"

definition params_modes_only :: params where
  "params_modes_only =
     \<lparr>p_axes_map = (\<lambda>n. None), p_axes_scale = (\<lambda>n. None), p_button_map = (\<lambda>n. None),
      p_rc_map = (\<lambda>n. None), p_rc_min = (\<lambda>n. None), p_rc_max = (\<lambda>n. None),
      p_rc_modes = Some [], p_reverse_throttle = None\<rparr>"

definition qfe_stub :: "real \<Rightarrow> real \<Rightarrow> real \<Rightarrow> quaternion" where
  "qfe_stub r p y = (r, p, y, 1)"

section \<open>Properties of the linear mapping and the calibration\<close>

text \<open>
  Claim C7. For all \<open>x\<close> and all bounds with \<open>in_min < in_max\<close> and \<open>out_min < out_max\<close>,
  mapping \<open>x\<close> from the input range to the output range and the result back from the
  output range to the input range returns \<open>x\<close>; neither call raises. (Over the reals;
  the rounding of floating point is not modelled.)
\<close>

theorem arduino_map_roundtrip:
  assumes "in_min < in_max" and "out_min < out_max"
  shows "\<exists>y. arduino_map x in_min in_max out_min out_max = Inr y \<and>
             arduino_map y out_min out_max in_min in_max = Inr x"
proof -
  from assms have d1: "in_max - in_min \<noteq> 0" and d2: "out_max - out_min \<noteq> 0" by simp_all
  let ?y = "(x - in_min) * (out_max - out_min) / (in_max - in_min) + out_min"
  have fwd: "arduino_map x in_min in_max out_min out_max = Inr ?y"
    using d1 by (simp add: arduino_map_def)
  have cancel: "(u * b / a + c - c) * a / b + d = u + d" if "a \<noteq> 0" "b \<noteq> 0"
    for u a b c d :: real
    using that by simp
  have "(?y - out_min) * (in_max - in_min) / (out_max - out_min) + in_min = x"
    using cancel [OF d1 d2, of "x - in_min" out_min in_min] by simp
  then have "arduino_map ?y out_min out_max in_min in_max = Inr x"
    using d2 by (simp add: arduino_map_def)
  with fwd show ?thesis by blast
qed

theorem arduino_map_roundtrip_witness:
  "\<exists>y. arduino_map (1/2) (- 1) 1 1000 2000 = Inr y \<and> arduino_map y 1000 2000 (- 1) 1 = Inr (1/2)"
  using arduino_map_roundtrip [of "- 1" 1 1000 2000 "1/2"] by simp

text \<open>
  Claim C6. In attitude-setpoint mode without reverse throttle, a raw scaled throttle of
  \<open>-1\<close> normalises to \<open>0\<close>, \<open>1\<close> normalises to \<open>1\<close>, and every value \<open>v\<close> to \<open>(v + 1) / 2\<close>;
  with reverse throttle the raw scaled value is passed through unchanged.
\<close>

theorem thd_normalize_spec:
  "thd_normalize False (- 1) = Inr 0 \<and>
   thd_normalize False 1 = Inr 1 \<and>
   thd_normalize False v = Inr ((v + 1) / 2) \<and>
   thd_normalize True v = Inr v"
  by (simp add: thd_normalize_def arduino_map_def)

theorem thd_normalize_spec_witness:
  "thd_normalize False (1/2) = Inr (3/4) \<and> thd_normalize True (1/2) = Inr (1/2)"
  using thd_normalize_spec [of "1/2"] by simp

text \<open>
  Claim C8. For a channel calibration with \<open>min < max\<close> and \<open>min_pos < 1\<close>, \<open>calc_us\<close>
  returns for every input and is monotonic non-decreasing; input \<open>1\<close> yields \<open>max\<close> and
  input \<open>min_pos\<close> yields \<open>min\<close>, so with the defaults 2000 and 1000.
\<close>

theorem calc_us_monotone:
  assumes "min_us c < max_us c" and "min_pos c < 1"
  shows "(\<forall>a b. a \<le> b \<longrightarrow>
            (\<exists>ua ub. calc_us c a = Inr ua \<and> calc_us c b = Inr ub \<and> ua \<le> ub)) \<and>
         calc_us c 1 = Inr (of_int (max_us c)) \<and>
         calc_us c (min_pos c) = Inr (of_int (min_us c)) \<and>
         (min_us c = 1000 \<and> max_us c = 2000 \<longrightarrow>
            calc_us c 1 = Inr 2000 \<and> calc_us c (min_pos c) = Inr 1000)"
proof -
  from assms(2) have d: "1 - min_pos c \<noteq> 0" and dpos: "0 < 1 - min_pos c" by simp_all
  from assms(1) have s: "(0::real) \<le> of_int (max_us c) - of_int (min_us c)" by simp
  have val: "calc_us c p =
      Inr ((p - min_pos c) * (of_int (max_us c) - of_int (min_us c)) / (1 - min_pos c)
           + of_int (min_us c))" for p
    using d by (simp add: calc_us_def arduino_map_def)
  have mono: "(a - min_pos c) * (of_int (max_us c) - of_int (min_us c)) / (1 - min_pos c)
                + of_int (min_us c)
              \<le> (b - min_pos c) * (of_int (max_us c) - of_int (min_us c)) / (1 - min_pos c)
                + of_int (min_us c)" if "a \<le> b" for a b :: real
  proof -
    from that have "a - min_pos c \<le> b - min_pos c" by simp
    then have "(a - min_pos c) * (of_int (max_us c) - of_int (min_us c))
               \<le> (b - min_pos c) * (of_int (max_us c) - of_int (min_us c))"
      using s by (rule mult_right_mono)
    then show ?thesis using dpos by (simp add: divide_right_mono)
  qed
  have top: "calc_us c 1 = Inr (of_int (max_us c))"
    using d by (simp add: val)
  have bot: "calc_us c (min_pos c) = Inr (of_int (min_us c))"
    by (simp add: val)
  have c1: "\<forall>a b. a \<le> b \<longrightarrow>
            (\<exists>ua ub. calc_us c a = Inr ua \<and> calc_us c b = Inr ub \<and> ua \<le> ub)"
  proof (intro allI impI)
    fix a b :: real
    assume "a \<le> b"
    from mono [OF this] val [of a] val [of b]
    show "\<exists>ua ub. calc_us c a = Inr ua \<and> calc_us c b = Inr ub \<and> ua \<le> ub"
      by blast
  qed
  have c4: "min_us c = 1000 \<and> max_us c = 2000 \<longrightarrow>
            calc_us c 1 = Inr 2000 \<and> calc_us c (min_pos c) = Inr 1000"
    by (simp add: top bot)
  from c1 top bot c4 show ?thesis by blast
qed

theorem calc_us_monotone_witness:
  "calc_us (rc_channels module_init Roll) 1 = Inr 2000 \<and>
   calc_us (rc_channels module_init Roll) (- 1) = Inr 1000 \<and>
   calc_us (rc_channels module_init Throttle) 0 = Inr 1000 \<and>
   (\<exists>ua ub. calc_us (rc_channels module_init Roll) (- 1/2) = Inr ua \<and>
             calc_us (rc_channels module_init Roll) (1/4) = Inr ub \<and> ua \<le> ub)"
proof -
  have r: "min_us (rc_channels module_init Roll) < max_us (rc_channels module_init Roll)"
          "min_pos (rc_channels module_init Roll) < 1"
    by (simp_all add: module_init_def RCChan_def)
  have t: "min_us (rc_channels module_init Throttle) < max_us (rc_channels module_init Throttle)"
          "min_pos (rc_channels module_init Throttle) < 1"
    by (simp_all add: module_init_def RCChan_def)
  have le: "(- 1/2 :: real) \<le> 1/4" by simp
  show ?thesis
    using calc_us_monotone [OF r] calc_us_monotone [OF t] le
    by (simp add: module_init_def RCChan_def)
qed

section \<open>Sequences and sequencing\<close>

lemma norm_index_less: "norm_index n i = Some k \<Longrightarrow> k < n"
  by (auto simp: norm_index_def split: if_splits)

lemma setitem_length: "setitem xs i v = Inr ys \<Longrightarrow> length ys = length xs"
  by (auto simp: setitem_def split: option.splits)

lemma setitem_other:
  "setitem xs i v = Inr ys \<Longrightarrow> norm_index (length xs) i \<noteq> Some k \<Longrightarrow> ys ! k = xs ! k"
  by (auto simp: setitem_def split: option.splits)

lemma setitem_hit:
  "norm_index (length xs) i = Some k \<Longrightarrow> setitem xs i v = Inr (xs[k := v])"
  by (simp add: setitem_def)

lemma then_do_Inr:
  "then_do f g s = (s'', Inr u) \<Longrightarrow> \<exists>s'. f s = (s', Inr ()) \<and> g s' = (s'', Inr u)"
  by (auto simp: then_do_def split: prod.splits sum.splits)

lemma then_do_fst:
  "fst (then_do f g s) = (case snd (f s) of Inl e \<Rightarrow> fst (f s) | Inr u \<Rightarrow> fst (g (fst (f s))))"
  by (auto simp: then_do_def split: prod.splits sum.splits)

lemma then_do_assoc: "then_do (then_do f g) h s = then_do f (then_do g h) s"
  by (auto simp: then_do_def split: prod.splits sum.splits)

text \<open>A property of the frame that every statement keeps is kept by their sequence.\<close>

lemma then_do_keeps:
  assumes "\<And>s. P s \<Longrightarrow> P (fst (f s))" and "\<And>s. P s \<Longrightarrow> P (fst (g s))" and "P s"
  shows "P (fst (then_do f g s))"
  using assms by (auto simp: then_do_fst split: sum.splits)

lemma getitem_cases:
  "getitem xs i =
     (if - int (length xs) \<le> i \<and> i < int (length xs)
      then Inr (xs ! nat (if i < 0 then i + int (length xs) else i))
      else Inl IndexError)"
  by (auto simp: getitem_def norm_index_def)

section \<open>Source indices\<close>

text \<open>
  Claim C2, as stated, fails. The configuration load of RC-override mode with the module's
  default maps succeeds, and a sample with two axes and one button then makes \<open>get_axis\<close>
  and \<open>get_buttons\<close> raise \<^verbatim>\<open>IndexError\<close> inside the callback: the out-of-range index is
  a per-sample error.
\<close>

theorem out_of_range_index_counterexample:
  "rc_override_setup params_modes_only frame8 module_init
     = Inr (module_init, [], \<lparr>rc = frame8, override_pub = []\<rparr>) \<and>
   get_axis module_init sample_two_axes Roll = Inl IndexError \<and>
   get_buttons module_init sample_two_axes Disarm = Inl IndexError \<and>
   rc_joy_cb module_init [] sample_two_axes \<lparr>rc = frame8, override_pub = []\<rparr>
     = (\<lparr>rc = frame8, override_pub = []\<rparr>, Inl IndexError)"
  by (simp add: rc_override_setup_def load_rc_channels_def load_maps_def load_map_def
        load_param_modes_def load_param_chan_def params_modes_only_def module_init_def
        rc_joy_cb_def eval_then_def get_axis_def get_buttons_def getitem_def norm_index_def
        sample_two_axes_def RCChan_def fun_eq_iff split: axis.splits)

text \<open>
  Claim C2, amended. \<open>load_map\<close> stores whatever index the parameter server holds, without
  a range check. \<open>get_axis\<close> and \<open>get_buttons\<close> check the index on every sample: they
  return a value exactly when the configured index \<open>i\<close> satisfies \<open>-len \<le> i < len\<close> for
  the sample's array, and raise \<^verbatim>\<open>IndexError\<close> exactly when it does not.
\<close>

theorem source_index_checked_per_sample:
  "axes_map (load_maps (p\<lparr>p_axes_map := (p_axes_map p)(n := Some i)\<rparr>) g) n = i \<and>
   button_map (load_maps (p\<lparr>p_button_map := (p_button_map p)(b := Some i)\<rparr>) g) b = i \<and>
   ((\<exists>v. get_axis g j n = Inr v) \<longleftrightarrow>
      - int (length (axes j)) \<le> axes_map g n \<and> axes_map g n < int (length (axes j))) \<and>
   (get_axis g j n = Inl IndexError \<longleftrightarrow>
      \<not> (- int (length (axes j)) \<le> axes_map g n \<and> axes_map g n < int (length (axes j)))) \<and>
   ((\<exists>v. get_buttons g j b = Inr v) \<longleftrightarrow>
      - int (length (buttons j)) \<le> button_map g b \<and> button_map g b < int (length (buttons j))) \<and>
   (get_buttons g j b = Inl IndexError \<longleftrightarrow>
      \<not> (- int (length (buttons j)) \<le> button_map g b \<and>
         button_map g b < int (length (buttons j))))"
  by (simp add: load_maps_def load_map_def get_axis_def get_buttons_def getitem_cases)

theorem source_index_checked_per_sample_witness:
  "axes_map (load_maps (params_modes_only\<lparr>p_axes_map :=
       (p_axes_map params_modes_only)(Roll := Some 7)\<rparr>) module_init) Roll = 7 \<and>
   get_axis module_init sample_two_axes Yaw = Inr 0 \<and>
   get_axis module_init sample_two_axes Roll = Inl IndexError \<and>
   get_buttons module_init sample_two_axes Arm = Inr 0 \<and>
   get_buttons module_init sample_two_axes Disarm = Inl IndexError"
proof -
  note t1 = source_index_checked_per_sample [where p = params_modes_only and n = Roll and i = 7
      and g = module_init and j = sample_two_axes and b = Disarm]
  have y: "get_axis module_init sample_two_axes Yaw = Inr 0"
    and a: "get_buttons module_init sample_two_axes Arm = Inr 0"
    by (simp_all add: get_axis_def get_buttons_def getitem_def norm_index_def module_init_def
          sample_two_axes_def)
  have r: "\<not> (- int (length (axes sample_two_axes)) \<le> axes_map module_init Roll \<and>
              axes_map module_init Roll < int (length (axes sample_two_axes)))"
    and d: "\<not> (- int (length (buttons sample_two_axes)) \<le> button_map module_init Disarm \<and>
              button_map module_init Disarm < int (length (buttons sample_two_axes)))"
    by (simp_all add: module_init_def sample_two_axes_def)
  from t1 r d y a show ?thesis by blast
qed

section \<open>Position and velocity setpoints\<close>

lemma get_axis_integrator [simp]:
  "get_axis (g\<lparr>px := a, py := b, pz := c\<rparr>) j n = get_axis g j n"
  by (simp add: get_axis_def split: sum.splits)

lemma pos_joy_cb_step:
  assumes "get_axis g j Roll = Inr roll" and "get_axis g j Pitch = Inr pitch"
    and "get_axis g j Yaw = Inr yaw" and "get_axis g j Throttle = Inr throttle"
  shows "pos_joy_cb qfe now j (g, pos_pub) =
           ((g\<lparr>px := px g - pitch, py := py g + roll, pz := pz g + throttle\<rparr>,
             pos_pub @ [\<lparr>pose_stamp = now,
                         position = (px g - pitch, py g + roll, pz g + throttle),
                         orientation = qfe 0 0 yaw\<rparr>]), Inr ())"
  using assms by (simp add: pos_joy_cb_def eval_then_def)

text \<open>
  Claim C3. In position-setpoint mode a sample whose four axes can be read updates the
  integrator by \<open>x -= pitch\<close>, \<open>y += roll\<close>, \<open>z += throttle\<close> and publishes one pose with
  that position and the orientation \<open>quaternion_from_euler(0, 0, yaw)\<close>. Starting from
  \<open>(0, 0, 0)\<close>, three samples with pitch 1, roll 0 and throttle 0 leave the integrator at
  \<open>(-3, 0, 0)\<close>, and the third pose carries that position.
\<close>

theorem pos_joy_cb_integrates:
  "(get_axis g j Roll = Inr roll \<and> get_axis g j Pitch = Inr pitch \<and>
    get_axis g j Yaw = Inr yaw \<and> get_axis g j Throttle = Inr throttle \<longrightarrow>
      pos_joy_cb qfe now j (g, pos_pub) =
        ((g\<lparr>px := px g - pitch, py := py g + roll, pz := pz g + throttle\<rparr>,
          pos_pub @ [\<lparr>pose_stamp = now,
                      position = (px g - pitch, py g + roll, pz g + throttle),
                      orientation = qfe 0 0 yaw\<rparr>]), Inr ())) \<and>
   (px g = 0 \<and> py g = 0 \<and> pz g = 0 \<and>
    (\<forall>s \<in> set [j1, j2, j3].
        get_axis g s Pitch = Inr 1 \<and> get_axis g s Roll = Inr 0 \<and>
        get_axis g s Throttle = Inr 0) \<and>
    get_axis g j1 Yaw = Inr y1 \<and> get_axis g j2 Yaw = Inr y2 \<and> get_axis g j3 Yaw = Inr y3 \<longrightarrow>
      (\<exists>g' pubs. pos_run qfe [(t1, j1), (t2, j2), (t3, j3)] (g, []) = (g', pubs) \<and>
         px g' = - 3 \<and> py g' = 0 \<and> pz g' = 0 \<and>
         length pubs = 3 \<and>
         last pubs = \<lparr>pose_stamp = t3, position = (- 3, 0, 0), orientation = qfe 0 0 y3\<rparr>))"
  by (auto simp: pos_joy_cb_step)

lemma get_axis_sample_pitch1:
  "get_axis module_init sample_pitch1 Roll = Inr 0"
  "get_axis module_init sample_pitch1 Pitch = Inr 1"
  "get_axis module_init sample_pitch1 Yaw = Inr 0"
  "get_axis module_init sample_pitch1 Throttle = Inr 0"
  by (simp_all add: get_axis_def getitem_def norm_index_def module_init_def sample_pitch1_def)

theorem pos_joy_cb_integrates_witness:
  "pos_joy_cb qfe_stub 7 sample_pitch1 (module_init, []) =
     ((module_init\<lparr>px := - 1, py := 0, pz := 0\<rparr>,
       [\<lparr>pose_stamp = 7, position = (- 1, 0, 0), orientation = (0, 0, 0, 1)\<rparr>]), Inr ()) \<and>
   (\<exists>g' pubs. pos_run qfe_stub
                 [(7, sample_pitch1), (8, sample_pitch1), (9, sample_pitch1)] (module_init, [])
               = (g', pubs) \<and>
      px g' = - 3 \<and> py g' = 0 \<and> pz g' = 0 \<and> length pubs = 3 \<and>
      last pubs = \<lparr>pose_stamp = 9, position = (- 3, 0, 0), orientation = (0, 0, 0, 1)\<rparr>)"
proof -
  have z: "px module_init = 0" "py module_init = 0" "pz module_init = 0"
    by (simp_all add: module_init_def)
  show ?thesis
    using pos_joy_cb_integrates [where g = module_init and j = sample_pitch1 and roll = 0
            and pitch = 1 and yaw = 0 and throttle = 0 and qfe = qfe_stub
            and now = 7 and pos_pub = "[]" and ?j1.0 = sample_pitch1 and ?j2.0 = sample_pitch1
            and ?j3.0 = sample_pitch1 and ?y1.0 = 0 and ?y2.0 = 0 and ?y3.0 = 0
            and ?t1.0 = 7 and ?t2.0 = 8 and ?t3.0 = 9]
    by (simp add: get_axis_sample_pitch1 z qfe_stub_def del: pos_run.simps)
qed

text \<open>
  Claim C9. In velocity-setpoint mode a sample whose four axes can be read makes the
  callback publish exactly one twist: linear velocity \<open>(roll, pitch, throttle)\<close> with the
  throttle as \<open>get_axis\<close> returns it, angular velocity \<open>(0, 0, yaw)\<close>.
\<close>

theorem vel_joy_cb_twist:
  assumes "get_axis g j Roll = Inr roll" and "get_axis g j Pitch = Inr pitch"
    and "get_axis g j Yaw = Inr yaw" and "get_axis g j Throttle = Inr throttle"
  shows "vel_joy_cb g now j vel_pub =
           (vel_pub @ [\<lparr>twist_stamp = now, linear = (roll, pitch, throttle),
                        angular = (0, 0, yaw)\<rparr>], Inr ())"
  using assms by (simp add: vel_joy_cb_def eval_then_def Vector3_def)

theorem vel_joy_cb_twist_witness:
  "vel_joy_cb module_init 5 sample_rpyt [] =
     ([\<lparr>twist_stamp = 5, linear = (1/2, - 1/2, - 1), angular = (0, 0, 1/4)\<rparr>], Inr ())"
proof -
  have "get_axis module_init sample_rpyt Roll = Inr (1/2)"
       "get_axis module_init sample_rpyt Pitch = Inr (- 1/2)"
       "get_axis module_init sample_rpyt Yaw = Inr (1/4)"
       "get_axis module_init sample_rpyt Throttle = Inr (- 1)"
    by (simp_all add: get_axis_def getitem_def norm_index_def module_init_def sample_rpyt_def)
  from vel_joy_cb_twist [OF this, of 5 "[]"] show ?thesis by simp
qed

section \<open>Mode overlays and the persistent frame\<close>

lemma set_chan_keeps:
  assumes "length chs = n \<and> chs ! k = x"
    and "norm_index n (chan (rc_channels g a)) \<noteq> Some k"
  shows "length (fst (set_chan g a v chs)) = n \<and> fst (set_chan g a v chs) ! k = x"
  using assms
  by (auto simp: set_chan_def Let_def setitem_length setitem_other split: sum.splits)

lemma set_chan_length: "length (fst (set_chan g a v chs)) = length chs"
  by (auto simp: set_chan_def Let_def setitem_length split: sum.splits)

lemma is_toggled_flags_iff:
  "is_toggled_flags fs j = Inr True \<longleftrightarrow>
     (\<forall>(btn, flag) \<in> set fs. getitem (buttons j) btn = Inr flag)"
  by (induction fs j rule: is_toggled_flags.induct) (auto split: sum.splits)

lemma apply_mode_fires:
  assumes "is_toggled m j = Inr True" and "norm_index (length chs) (rc_channel m) = Some k"
  shows "apply_mode m j chs = (chs[k := of_int (rc_value m)], Inr ())"
  using assms by (simp add: apply_mode_def setitem_hit)

lemma apply_mode_idle:
  assumes "is_toggled m j \<noteq> Inr True"
  shows "fst (apply_mode m j chs) = chs"
  using assms by (auto simp: apply_mode_def split: sum.splits bool.splits)

lemma apply_mode_keeps:
  assumes "length chs = n \<and> chs ! k = x"
    and "is_toggled m j = Inr True \<longrightarrow> norm_index n (rc_channel m) \<noteq> Some k"
  shows "length (fst (apply_mode m j chs)) = n \<and> fst (apply_mode m j chs) ! k = x"
  using assms
  by (auto simp: apply_mode_def setitem_length setitem_other split: sum.splits bool.splits)

lemma apply_mode_length: "length (fst (apply_mode m j chs)) = length chs"
  by (auto simp: apply_mode_def setitem_length split: sum.splits bool.splits)

lemma apply_modes_keeps:
  assumes "length chs = n \<and> chs ! k = x"
    and "\<forall>m \<in> set ms. is_toggled m j = Inr True \<longrightarrow> norm_index n (rc_channel m) \<noteq> Some k"
  shows "length (fst (apply_modes ms j chs)) = n \<and> fst (apply_modes ms j chs) ! k = x"
  using assms
proof (induction ms arbitrary: chs)
  case Nil
  then show ?case by simp
next
  case (Cons m ms)
  let ?P = "\<lambda>c. length c = n \<and> c ! k = x"
  have "?P (fst (then_do (apply_mode m j) (apply_modes ms j) chs))"
  proof (rule then_do_keeps [where P = ?P])
    fix s assume "?P s"
    then show "?P (fst (apply_mode m j s))"
      using Cons.prems(2) by (intro apply_mode_keeps) simp_all
  next
    fix s assume "?P s"
    then show "?P (fst (apply_modes ms j s))"
      using Cons.prems(2) by (intro Cons.IH) simp_all
  next
    show "?P chs" by (rule Cons.prems(1))
  qed
  then show ?case by simp
qed

lemma apply_modes_length: "length (fst (apply_modes ms j chs)) = length chs"
proof (induction ms arbitrary: chs)
  case Nil
  then show ?case by simp
next
  case (Cons m ms)
  then show ?case
    by (simp add: then_do_fst apply_mode_length split: sum.splits)
qed

lemma apply_modes_append:
  "apply_modes (ms1 @ ms2) j chs = then_do (apply_modes ms1 j) (apply_modes ms2 j) chs"
proof (induction ms1 arbitrary: chs)
  case Nil
  then show ?case by (simp add: then_do_def)
next
  case (Cons m ms1)
  have "apply_modes ((m # ms1) @ ms2) j chs
          = then_do (apply_mode m j) (apply_modes (ms1 @ ms2) j) chs" by simp
  also have "\<dots> = then_do (apply_mode m j) (then_do (apply_modes ms1 j) (apply_modes ms2 j)) chs"
    by (simp add: then_do_def Cons.IH split: prod.splits sum.splits)
  also have "\<dots> = then_do (then_do (apply_mode m j) (apply_modes ms1 j)) (apply_modes ms2 j) chs"
    by (simp add: then_do_assoc)
  also have "\<dots> = then_do (apply_modes (m # ms1) j) (apply_modes ms2 j) chs"
    by (simp add: then_do_def)
  finally show ?case .
qed

text \<open>
  Claim C4. An overlay fires, that is \<open>is_toggled\<close> returns \<^verbatim>\<open>True\<close>, if and only if
  every (button index, required state) pair of its trigger set is matched by the sample's
  button array. A firing overlay whose target channel is a channel of the frame sets that
  channel to its forced value; an overlay that does not fire leaves the frame as it is. In
  the RC-override callback the overlays run after the four calibrations, so the published
  frame holds the forced value at the target channel of a firing overlay, unless a later
  firing overlay writes the same channel.
\<close>

theorem overlay_fires_iff_all_match:
  "(is_toggled m j = Inr True \<longleftrightarrow>
      (\<forall>(btn, flag) \<in> set (joy_flags m). getitem (buttons j) btn = Inr flag)) \<and>
   (is_toggled m j = Inr True \<and> norm_index (length chs) (rc_channel m) = Some k \<longrightarrow>
      apply_mode m j chs = (chs[k := of_int (rc_value m)], Inr ()) \<and>
      fst (apply_mode m j chs) ! k = of_int (rc_value m)) \<and>
   (is_toggled m j \<noteq> Inr True \<longrightarrow> fst (apply_mode m j chs) = chs) \<and>
   (rc_joy_cb g (ms1 @ m # ms2) j w = (w', Inr ()) \<and>
    is_toggled m j = Inr True \<and> norm_index (length (rc w)) (rc_channel m) = Some k \<and>
    (\<forall>m' \<in> set ms2. is_toggled m' j = Inr True \<longrightarrow>
        norm_index (length (rc w)) (rc_channel m') \<noteq> Some k) \<longrightarrow>
      rc w' ! k = of_int (rc_value m) \<and>
      override_pub w' = override_pub w @ [rc w'])"
proof (intro conjI impI)
  show "is_toggled m j = Inr True \<longleftrightarrow>
      (\<forall>(btn, flag) \<in> set (joy_flags m). getitem (buttons j) btn = Inr flag)"
    by (simp add: is_toggled_def is_toggled_flags_iff)
next
  assume a: "is_toggled m j = Inr True \<and> norm_index (length chs) (rc_channel m) = Some k"
  then show "apply_mode m j chs = (chs[k := of_int (rc_value m)], Inr ())"
    by (simp add: apply_mode_fires)
  from a have "k < length chs" by (auto dest: norm_index_less)
  with a show "fst (apply_mode m j chs) ! k = of_int (rc_value m)"
    by (simp add: apply_mode_fires)
next
  assume "is_toggled m j \<noteq> Inr True"
  then show "fst (apply_mode m j chs) = chs" by (rule apply_mode_idle)
next
  assume a: "rc_joy_cb g (ms1 @ m # ms2) j w = (w', Inr ()) \<and>
    is_toggled m j = Inr True \<and> norm_index (length (rc w)) (rc_channel m) = Some k \<and>
    (\<forall>m' \<in> set ms2. is_toggled m' j = Inr True \<longrightarrow>
        norm_index (length (rc w)) (rc_channel m') \<noteq> Some k)"
  let ?n = "length (rc w)"
  from a obtain roll pitch yaw throttle chs' where
    run: "then_do (set_chan g Roll roll)
           (then_do (set_chan g Pitch pitch)
           (then_do (set_chan g Yaw yaw)
           (then_do (set_chan g Throttle throttle)
                    (apply_modes (ms1 @ m # ms2) j)))) (rc w) = (chs', Inr ())"
    and w': "w' = w\<lparr>rc := chs', override_pub := override_pub w @ [chs']\<rparr>"
    by (auto simp: rc_joy_cb_def eval_then_def split: sum.splits prod.splits)
  from then_do_Inr [OF run] obtain c1 where
    c1: "set_chan g Roll roll (rc w) = (c1, Inr ())"
    and r1: "then_do (set_chan g Pitch pitch)
           (then_do (set_chan g Yaw yaw)
           (then_do (set_chan g Throttle throttle)
                    (apply_modes (ms1 @ m # ms2) j))) c1 = (chs', Inr ())"
    by blast
  from then_do_Inr [OF r1] obtain c2 where
    c2: "set_chan g Pitch pitch c1 = (c2, Inr ())"
    and r2: "then_do (set_chan g Yaw yaw)
           (then_do (set_chan g Throttle throttle)
                    (apply_modes (ms1 @ m # ms2) j)) c2 = (chs', Inr ())"
    by blast
  from then_do_Inr [OF r2] obtain c3 where
    c3: "set_chan g Yaw yaw c2 = (c3, Inr ())"
    and r3: "then_do (set_chan g Throttle throttle)
                    (apply_modes (ms1 @ m # ms2) j) c3 = (chs', Inr ())"
    by blast
  from then_do_Inr [OF r3] obtain c4 where
    c4: "set_chan g Throttle throttle c3 = (c4, Inr ())"
    and r4: "apply_modes (ms1 @ m # ms2) j c4 = (chs', Inr ())"
    by blast
  have len4: "length c4 = ?n"
    using set_chan_length [of g Roll roll "rc w"] set_chan_length [of g Pitch pitch c1]
      set_chan_length [of g Yaw yaw c2] set_chan_length [of g Throttle throttle c3]
    by (simp add: c1 c2 c3 c4)
  from r4 have "then_do (apply_modes ms1 j) (apply_modes (m # ms2) j) c4 = (chs', Inr ())"
    by (simp only: apply_modes_append)
  from then_do_Inr [OF this] obtain c5 where
    c5: "apply_modes ms1 j c4 = (c5, Inr ())"
    and r5: "apply_modes (m # ms2) j c5 = (chs', Inr ())"
    by blast
  have len5: "length c5 = ?n"
    using apply_modes_length [of ms1 j c4] by (simp add: c5 len4)
  from r5 have "then_do (apply_mode m j) (apply_modes ms2 j) c5 = (chs', Inr ())" by simp
  from then_do_Inr [OF this] obtain c6 where
    c6: "apply_mode m j c5 = (c6, Inr ())"
    and r6: "apply_modes ms2 j c6 = (chs', Inr ())"
    by blast
  from a have k: "k < ?n" by (auto dest: norm_index_less)
  have "c6 = c5[k := of_int (rc_value m)]"
    using a apply_mode_fires [of m j c5 k] by (simp add: len5 c6)
  then have "length c6 = ?n \<and> c6 ! k = of_int (rc_value m)"
    using k by (simp add: len5)
  from apply_modes_keeps [OF this, of ms2 j] a
  have "fst (apply_modes ms2 j c6) ! k = of_int (rc_value m)" by blast
  then have "chs' ! k = of_int (rc_value m)" by (simp add: r6)
  then show "rc w' ! k = of_int (rc_value m)" by (simp add: w')
  show "override_pub w' = override_pub w @ [rc w']" by (simp add: w')
qed

lemmas eval_defs =
  rc_joy_cb_def eval_then_def then_do_def set_chan_def calc_us_def arduino_map_def
  setitem_def getitem_def norm_index_def get_axis_def get_buttons_def module_init_def RCChan_def
  apply_mode_def is_toggled_def overlay_ch2_def sample_button0_def sample_released_def
  overlay_ch5_def frame8_def Let_def

lemma rc_joy_cb_sample_button0:
  "rc_joy_cb module_init [overlay_ch2] sample_button0 \<lparr>rc = frame8, override_pub = []\<rparr> =
     (\<lparr>rc = [1500, 1500, 1500, 1500, 0, 0, 0, 0],
       override_pub = [[1500, 1500, 1500, 1500, 0, 0, 0, 0]]\<rparr>, Inr ())"
  by (simp add: eval_defs)

lemma rc_joy_cb_sample_released:
  "rc_joy_cb module_init [overlay_ch2] sample_released \<lparr>rc = frame8, override_pub = []\<rparr> =
     (\<lparr>rc = [1500, 1500, 2000, 1500, 0, 0, 0, 0],
       override_pub = [[1500, 1500, 2000, 1500, 0, 0, 0, 0]]\<rparr>, Inr ())"
  by (simp add: eval_defs)

theorem overlay_fires_iff_all_match_witness:
  "is_toggled overlay_ch2 sample_button0 = Inr True \<and>
   apply_mode overlay_ch2 sample_button0 [1500, 1500, 2000, 1500, 0, 0, 0, 0]
     = ([1500, 1500, 1500, 1500, 0, 0, 0, 0], Inr ()) \<and>
   is_toggled overlay_ch2 sample_released = Inr False \<and>
   fst (apply_mode overlay_ch2 sample_released [1500, 1500, 2000, 1500, 0, 0, 0, 0])
     = [1500, 1500, 2000, 1500, 0, 0, 0, 0] \<and>
   rc (fst (rc_joy_cb module_init [overlay_ch2] sample_button0
              \<lparr>rc = frame8, override_pub = []\<rparr>)) ! 2 = 1500"
proof -
  have on: "is_toggled overlay_ch2 sample_button0 = Inr True"
    and off: "is_toggled overlay_ch2 sample_released = Inr False"
    by (simp_all add: eval_defs)
  have ix: "norm_index (length [1500, 1500, 2000, 1500, 0, 0, 0, 0 :: real])
              (rc_channel overlay_ch2) = Some 2"
    and ix': "norm_index (length (rc \<lparr>rc = frame8, override_pub = []\<rparr>))
              (rc_channel overlay_ch2) = Some 2"
    by (simp_all add: eval_defs)
  have v: "(of_int (rc_value overlay_ch2) :: real) = 1500"
    by (simp add: overlay_ch2_def)
  have upd: "[1500, 1500, 2000, 1500, 0, 0, 0, 0 :: real][2 := 1500]
               = [1500, 1500, 1500, 1500, 0, 0, 0, 0]"
    by (simp add: numeral_2_eq_2)
  note fire = overlay_fires_iff_all_match [where m = overlay_ch2 and j = sample_button0
      and chs = "[1500, 1500, 2000, 1500, 0, 0, 0, 0]" and k = 2 and g = module_init
      and ?ms1.0 = "[]" and ?ms2.0 = "[]" and w = "\<lparr>rc = frame8, override_pub = []\<rparr>"
      and w' = "\<lparr>rc = [1500, 1500, 1500, 1500, 0, 0, 0, 0],
                override_pub = [[1500, 1500, 1500, 1500, 0, 0, 0, 0]]\<rparr>"]
  note idle = overlay_fires_iff_all_match [where m = overlay_ch2 and j = sample_released
      and chs = "[1500, 1500, 2000, 1500, 0, 0, 0, 0]"]
  have a: "apply_mode overlay_ch2 sample_button0 [1500, 1500, 2000, 1500, 0, 0, 0, 0]
     = ([1500, 1500, 1500, 1500, 0, 0, 0, 0], Inr ())"
    using fire on ix by (simp add: v upd)
  have b: "fst (apply_mode overlay_ch2 sample_released [1500, 1500, 2000, 1500, 0, 0, 0, 0])
     = [1500, 1500, 2000, 1500, 0, 0, 0, 0]"
    using idle off by simp
  have c: "rc (fst (rc_joy_cb module_init [overlay_ch2] sample_button0
              \<lparr>rc = frame8, override_pub = []\<rparr>)) ! 2 = 1500"
    using fire on ix' rc_joy_cb_sample_button0 by (simp add: v)
  from on a off b c show ?thesis by blast
qed

lemma rc_joy_cb_keeps:
  assumes cal: "\<forall>n. norm_index (length (rc w)) (chan (rc_channels g n)) \<noteq> Some k"
    and ovl: "\<forall>m \<in> set ms. is_toggled m j = Inr True \<longrightarrow>
                norm_index (length (rc w)) (rc_channel m) \<noteq> Some k"
  shows "length (rc (fst (rc_joy_cb g ms j w))) = length (rc w) \<and>
         rc (fst (rc_joy_cb g ms j w)) ! k = rc w ! k"
proof -
  let ?P = "\<lambda>c. length c = length (rc w) \<and> c ! k = rc w ! k"
  have sc: "?P (fst (set_chan g a v s))" if "?P s" for a v s
    using that cal by (intro set_chan_keeps) simp_all
  have am: "?P (fst (apply_modes ms j s))" if "?P s" for s
    using that ovl by (intro apply_modes_keeps) simp_all
  have chain: "?P (fst (then_do (set_chan g Roll roll)
           (then_do (set_chan g Pitch pitch)
           (then_do (set_chan g Yaw yaw)
           (then_do (set_chan g Throttle throttle)
                    (apply_modes ms j)))) (rc w)))" for roll pitch yaw throttle
    by (intro then_do_keeps [where P = ?P] sc am) simp_all
  have fin: "rc (fst (case X of
                        (chs, Inl e) \<Rightarrow> (w\<lparr>rc := chs\<rparr>, Inl e)
                      | (chs, Inr u) \<Rightarrow>
                          (w\<lparr>rc := chs, override_pub := override_pub w @ [chs]\<rparr>, Inr ())))
             = fst X" for X :: "real list \<times> (error + unit)"
    by (auto split: prod.splits sum.splits)
  show ?thesis
    using chain by (simp add: rc_joy_cb_def eval_then_def fin split: sum.splits)
qed

lemma rc_joy_cb_publishes:
  "rc_joy_cb g ms j w = (w', Inr ()) \<Longrightarrow> override_pub w' = override_pub w @ [rc w']"
  by (auto simp: rc_joy_cb_def eval_then_def split: sum.splits prod.splits)

text \<open>
  Claim C5. In RC-override mode, take two consecutive samples. A channel of the frame
  that in the second sample is the target of none of the four channel calibrations and of
  no firing overlay has after the second sample the value it had after the first, and the
  frame published for the second sample carries that value: the frame is one list, updated
  in place.
\<close>

theorem rc_frame_persists:
  assumes "rc_joy_cb g ms j1 w0 = (w1, r1)"
    and "rc_joy_cb g ms j2 w1 = (w2, r2)"
    and "k < length (rc w1)"
    and "\<forall>n. norm_index (length (rc w1)) (chan (rc_channels g n)) \<noteq> Some k"
    and "\<forall>m \<in> set ms. is_toggled m j2 = Inr True \<longrightarrow>
           norm_index (length (rc w1)) (rc_channel m) \<noteq> Some k"
  shows "rc w2 ! k = rc w1 ! k \<and> length (rc w2) = length (rc w1) \<and>
         (r2 = Inr () \<longrightarrow> override_pub w2 = override_pub w1 @ [rc w2] \<and>
                            last (override_pub w2) ! k = rc w1 ! k)"
proof -
  from rc_joy_cb_keeps [OF assms(4) assms(5)] assms(2)
  have keep: "length (rc w2) = length (rc w1) \<and> rc w2 ! k = rc w1 ! k" by simp
  have "override_pub w2 = override_pub w1 @ [rc w2]" if "r2 = Inr ()"
    using assms(2) that by (simp add: rc_joy_cb_publishes)
  with keep show ?thesis by simp
qed

theorem rc_frame_persists_witness:
  "rc_joy_cb module_init [overlay_ch5] sample_button0 \<lparr>rc = frame8, override_pub = []\<rparr>
     = (\<lparr>rc = [1500, 1500, 2000, 1500, 0, 1100, 0, 0],
         override_pub = [[1500, 1500, 2000, 1500, 0, 1100, 0, 0]]\<rparr>, Inr ()) \<and>
   rc (fst (rc_joy_cb module_init [overlay_ch5] sample_released
              \<lparr>rc = [1500, 1500, 2000, 1500, 0, 1100, 0, 0],
                override_pub = [[1500, 1500, 2000, 1500, 0, 1100, 0, 0]]\<rparr>)) ! 5 = 1100"
proof -
  let ?w0 = "\<lparr>rc = frame8, override_pub = []\<rparr>"
  let ?w1 = "\<lparr>rc = [1500, 1500, 2000, 1500, 0, 1100, 0, 0 :: real],
              override_pub = [[1500, 1500, 2000, 1500, 0, 1100, 0, 0 :: real]]\<rparr>"
  have first: "rc_joy_cb module_init [overlay_ch5] sample_button0 ?w0 = (?w1, Inr ())"
    by (simp add: eval_defs)
  have second: "rc_joy_cb module_init [overlay_ch5] sample_released ?w1
                  = (fst (rc_joy_cb module_init [overlay_ch5] sample_released ?w1),
                     snd (rc_joy_cb module_init [overlay_ch5] sample_released ?w1))"
    by simp
  have k: "5 < length (rc ?w1)" by simp
  have cal: "\<forall>n. norm_index (length (rc ?w1)) (chan (rc_channels module_init n)) \<noteq> Some 5"
    by (simp add: norm_index_def module_init_def RCChan_def split: axis.splits)
  have ovl: "\<forall>m \<in> set [overlay_ch5]. is_toggled m sample_released = Inr True \<longrightarrow>
               norm_index (length (rc ?w1)) (rc_channel m) \<noteq> Some 5"
    by (simp add: eval_defs)
  from rc_frame_persists [OF first second k cal ovl] first show ?thesis by simp
qed

section \<open>Arming in attitude-setpoint mode\<close>

lemmas att_defs =
  att_joy_cb_def eval_then_def then_do_def arm_def thd_normalize_def arduino_map_def
  getitem_def norm_index_def get_axis_def get_buttons_def module_init_def
  sample_button0_def sample_both_def sample_disarm_def

text \<open>
  Claim C1 does not hold of the code. In attitude-setpoint mode, with the default maps
  and a sample whose arm button is pressed, \<open>arm\<close> raises \<^verbatim>\<open>NameError\<close> after the arming
  call, whether the service answers with an unsuccessful response or raises: the callback
  stops there, logs nothing and publishes neither the attitude nor the throttle. The same
  happens for the disarm button.
\<close>

theorem arm_failure_aborts_callback:
  "att_joy_cb module_init False qfe_stub (\<lambda>s. Response False) 3 sample_button0 []
     = ([Arming True], Inl (NameError ''ret'')) \<and>
   att_joy_cb module_init False qfe_stub (\<lambda>s. ServiceException) 3 sample_button0 []
     = ([Arming True], Inl (NameError ''fault'')) \<and>
   att_joy_cb module_init False qfe_stub (\<lambda>s. Response False) 3 sample_disarm []
     = ([Arming False], Inl (NameError ''ret''))"
  by (simp add: att_defs)

lemma thd_normalize_returns: "thd_normalize rt t = Inr (if rt then t else (t + 1) / 2)"
  by (simp add: thd_normalize_def arduino_map_def)

lemma arm_events: "fst (arm arming state tr) = tr @ [Arming state]"
  by (simp add: arm_def split: arming_reply.splits)

lemma arm_raises: "\<exists>e. snd (arm arming state tr) = Inl e"
  by (simp add: arm_def split: arming_reply.splits)

text \<open>
  Claim C10. In attitude-setpoint mode, on a sample whose axes can be read and whose arm
  button is pressed, the only command issued is the arm command, whatever the disarm button
  is, so also when both are pressed. A disarm command is issued only on a sample whose arm
  button is not pressed and whose disarm button is.
\<close>

theorem arm_takes_precedence:
  "(get_axis g j Roll = Inr roll \<and> get_axis g j Pitch = Inr pitch \<and>
    get_axis g j Yaw = Inr yaw \<and> get_axis g j Throttle = Inr t \<and>
    get_buttons g j Arm = Inr 1 \<longrightarrow>
      fst (att_joy_cb g rt qfe arming now j []) = [Arming True]) \<and>
   (Arming False \<in> set (fst (att_joy_cb g rt qfe arming now j [])) \<longrightarrow>
      (\<exists>a. get_buttons g j Arm = Inr a \<and> a \<noteq> 1) \<and> get_buttons g j Disarm = Inr 1)"
proof (intro conjI impI)
  assume a: "get_axis g j Roll = Inr roll \<and> get_axis g j Pitch = Inr pitch \<and>
    get_axis g j Yaw = Inr yaw \<and> get_axis g j Throttle = Inr t \<and>
    get_buttons g j Arm = Inr 1"
  obtain v where v: "thd_normalize rt t = Inr v" using thd_normalize_returns by blast
  obtain e where e: "snd (arm arming True []) = Inl e" using arm_raises by blast
  have "arm arming True [] = ([Arming True], Inl e)"
    using arm_events [of arming True "[]"] e by (simp add: prod_eq_iff)
  with a v show "fst (att_joy_cb g rt qfe arming now j []) = [Arming True]"
    by (simp add: att_joy_cb_def eval_then_def then_do_def)
next
  assume d: "Arming False \<in> set (fst (att_joy_cb g rt qfe arming now j []))"
  have arm_t: "Arming False \<notin> set (fst (arm arming True []))"
    by (simp add: arm_events)
  from d arm_t show "\<exists>a. get_buttons g j Arm = Inr a \<and> a \<noteq> 1"
    by (auto simp: att_joy_cb_def eval_then_def then_do_def arm_def
             split: sum.splits if_splits prod.splits arming_reply.splits)
  from d arm_t show "get_buttons g j Disarm = Inr 1"
    by (auto simp: att_joy_cb_def eval_then_def then_do_def arm_def
             split: sum.splits if_splits prod.splits arming_reply.splits)
qed

theorem arm_takes_precedence_witness:
  "get_buttons module_init sample_both Arm = Inr 1 \<and>
   get_buttons module_init sample_both Disarm = Inr 1 \<and>
   fst (att_joy_cb module_init False qfe_stub (\<lambda>s. Response True) 3 sample_both [])
     = [Arming True] \<and>
   Arming False \<in> set (fst (att_joy_cb module_init False qfe_stub (\<lambda>s. Response True) 3
                               sample_disarm [])) \<and>
   get_buttons module_init sample_disarm Arm = Inr 0 \<and>
   get_buttons module_init sample_disarm Disarm = Inr 1"
proof -
  have ax: "get_axis module_init sample_both Roll = Inr 0"
    "get_axis module_init sample_both Pitch = Inr 0"
    "get_axis module_init sample_both Yaw = Inr 0"
    "get_axis module_init sample_both Throttle = Inr 1"
    and bt: "get_buttons module_init sample_both Arm = Inr 1"
    "get_buttons module_init sample_both Disarm = Inr 1"
    by (simp_all add: att_defs)
  have dis: "Arming False \<in> set (fst (att_joy_cb module_init False qfe_stub
                (\<lambda>s. Response True) 3 sample_disarm []))"
    by (simp add: att_defs)
  note both = arm_takes_precedence [where g = module_init and j = sample_both and roll = 0
      and pitch = 0 and yaw = 0 and t = 1 and rt = False and qfe = qfe_stub
      and arming = "\<lambda>s. Response True" and now = 3]
  note only = arm_takes_precedence [where g = module_init and j = sample_disarm
      and rt = False and qfe = qfe_stub and arming = "\<lambda>s. Response True" and now = 3]
  have r1: "fst (att_joy_cb module_init False qfe_stub (\<lambda>s. Response True) 3 sample_both [])
     = [Arming True]"
    using both ax bt by simp
  have r2: "(\<exists>a. get_buttons module_init sample_disarm Arm = Inr a \<and> a \<noteq> 1) \<and>
            get_buttons module_init sample_disarm Disarm = Inr 1"
    using only dis by blast
  have r3: "get_buttons module_init sample_disarm Arm = Inr 0"
    by (simp add: att_defs)
  from bt r1 dis r2 r3 show ?thesis by blast
qed

end
